theory Spec2Isabelle
  imports Main "HOL-Library.Sublist" "HOL-Library.Word"
begin

section \<open>The image checker (index.js)\<close>

text \<open>
  A shallow embedding of \<^verbatim>\<open>src/index.js\<close>: a command-line tool that stores the
  base64 text of image files in \<^verbatim>\<open>store.db\<close> (command \<^verbatim>\<open>flag\<close>) and looks
  images up in it (command \<^verbatim>\<open>check\<close>).  JavaScript strings are modelled as
  \<^typ>\<open>string\<close>, file bytes as \<^typ>\<open>8 word\<close>, exceptions as the left summand of a
  sum type, and the file system, the console and the process exit as an explicit world.
\<close>

subsection \<open>Configuration and errors\<close>

record config =
  imageExtensions :: string
  partialChunks :: nat

definition default_config :: config where
  "default_config = \<lparr> imageExtensions = ''jpg|jpeg|png'', partialChunks = 120 \<rparr>"

text \<open>
  The exceptions the program can meet.  \<open>SyntaxError\<close>, \<open>TypeError\<close> and
  \<open>ReferenceError\<close> are raised by the JavaScript engine, \<open>SystemError\<close> by the
  \<^verbatim>\<open>fs\<close> module.  \<open>OutsideFragment\<close> is not a JavaScript error: it marks a regular
  expression whose syntax is not covered by the fragment modelled below.
\<close>

datatype js_error =
    SyntaxError
  | TypeError
  | ReferenceError
  | SystemError
  | OutsideFragment

subsection \<open>Regular expressions\<close>

text \<open>
  The program builds every regular expression from a string with \<^verbatim>\<open>RegExp(...)\<close> and
  uses it through \<^verbatim>\<open>.test\<close>.  The fragment modelled here is: alternation \<^verbatim>\<open>|\<close>,
  concatenation, the atoms "ordinary character", "backslash followed by a syntax
  character" and \<^verbatim>\<open>.\<close>, and the quantifiers \<^verbatim>\<open>*\<close>, \<^verbatim>\<open>+\<close>, \<^verbatim>\<open>?\<close>,
  each optionally followed by the laziness mark \<^verbatim>\<open>?\<close> (which does not change whether a
  match exists).  Groups, classes, anchors, braces and the other escapes are answered with
  \<open>OutsideFragment\<close>.
\<close>

definition backslash :: char where
  "backslash = CHR 0x5C"

text \<open>The fourteen syntax characters of the pattern grammar:
  \<^verbatim>\<open>^ $ \ . * + ? ( ) [ ] { } |\<close>.\<close>

definition syntax_chars :: "char list" where
  "syntax_chars =
     [CHR ''^'', CHR ''$'', backslash, CHR ''.'', CHR ''*'', CHR ''+'', CHR ''?'',
      CHR ''('', CHR '')'', CHR ''['', CHR '']'', CHR ''{'', CHR ''}'', CHR ''|'']"

definition is_syntax_char :: "char \<Rightarrow> bool" where
  "is_syntax_char c = (c \<in> set syntax_chars)"

text \<open>The characters that \<^verbatim>\<open>.\<close> does not match.  A \<^typ>\<open>char\<close> has eight bits, so
  of the four line terminators of the language only line feed and carriage return
  occur.\<close>

definition is_line_terminator :: "char \<Rightarrow> bool" where
  "is_line_terminator c = (c = CHR 0x0A \<or> c = CHR 0x0D)"

datatype atom = Chr char | Dot

datatype quant = Once | Star | Plus | Opt

datatype token = TAtom atom | TBar | TQuant quant

type_synonym alternative = "(atom \<times> quant) list"

type_synonym regex = "alternative list"

definition cons_token :: "token \<Rightarrow> js_error + token list \<Rightarrow> js_error + token list" where
  "cons_token t r = (case r of Inl e \<Rightarrow> Inl e | Inr ts \<Rightarrow> Inr (t # ts))"

fun tokenize :: "string \<Rightarrow> js_error + token list" where
  "tokenize [] = Inr []"
| "tokenize (c # cs) =
     (if c = backslash then
        (case cs of
           [] \<Rightarrow> Inl SyntaxError
         | d # ds \<Rightarrow>
             if is_syntax_char d then cons_token (TAtom (Chr d)) (tokenize ds)
             else Inl OutsideFragment)
      else if c = CHR ''.'' then cons_token (TAtom Dot) (tokenize cs)
      else if c = CHR ''|'' then cons_token TBar (tokenize cs)
      else if c = CHR ''*'' then cons_token (TQuant Star) (tokenize cs)
      else if c = CHR ''+'' then cons_token (TQuant Plus) (tokenize cs)
      else if c = CHR ''?'' then cons_token (TQuant Opt) (tokenize cs)
      else if is_syntax_char c then Inl OutsideFragment
      else cons_token (TAtom (Chr c)) (tokenize cs))"

text \<open>One alternative: atoms, each with its quantifier.  A quantifier with nothing
  before it is the engine's "Nothing to repeat".\<close>

fun parse_alternative :: "token list \<Rightarrow> js_error + alternative" where
  "parse_alternative [] = Inr []"
| "parse_alternative (TAtom a # TQuant q # TQuant Opt # ts) =
     (case parse_alternative ts of Inl e \<Rightarrow> Inl e | Inr p \<Rightarrow> Inr ((a, q) # p))"
| "parse_alternative (TAtom a # TQuant q # ts) =
     (case parse_alternative ts of Inl e \<Rightarrow> Inl e | Inr p \<Rightarrow> Inr ((a, q) # p))"
| "parse_alternative (TAtom a # ts) =
     (case parse_alternative ts of Inl e \<Rightarrow> Inl e | Inr p \<Rightarrow> Inr ((a, Once) # p))"
| "parse_alternative (TQuant q # ts) = Inl SyntaxError"
| "parse_alternative (TBar # ts) = Inl SyntaxError"

text \<open>The disjunction: the token list is cut at every \<^verbatim>\<open>|\<close>.\<close>

fun split_bars :: "token list \<Rightarrow> token list list" where
  "split_bars [] = [[]]"
| "split_bars (TBar # ts) = [] # split_bars ts"
| "split_bars (t # ts) =
     (case split_bars ts of [] \<Rightarrow> [[t]] | a # as \<Rightarrow> (t # a) # as)"

fun parse_alternatives :: "token list list \<Rightarrow> js_error + regex" where
  "parse_alternatives [] = Inr []"
| "parse_alternatives (a # as) =
     (case parse_alternative a of
        Inl e \<Rightarrow> Inl e
      | Inr p \<Rightarrow> (case parse_alternatives as of Inl e \<Rightarrow> Inl e | Inr r \<Rightarrow> Inr (p # r)))"

text \<open>\<^verbatim>\<open>RegExp(pattern)\<close>.\<close>

definition RegExp :: "string \<Rightarrow> js_error + regex" where
  "RegExp pattern =
     (case tokenize pattern of
        Inl e \<Rightarrow> Inl e
      | Inr ts \<Rightarrow> parse_alternatives (split_bars ts))"

fun atom_matches :: "atom \<Rightarrow> char \<Rightarrow> bool" where
  "atom_matches (Chr c) d = (c = d)"
| "atom_matches Dot d = (\<not> is_line_terminator d)"

text \<open>Does the alternative match a prefix of the text?  (Backtracking over the
  quantifiers.)\<close>

function match_here :: "alternative \<Rightarrow> string \<Rightarrow> bool" where
  "match_here [] s = True"
| "match_here ((a, Once) # p) s =
     (case s of [] \<Rightarrow> False | c # cs \<Rightarrow> atom_matches a c \<and> match_here p cs)"
| "match_here ((a, Opt) # p) s =
     ((case s of [] \<Rightarrow> False | c # cs \<Rightarrow> atom_matches a c \<and> match_here p cs)
      \<or> match_here p s)"
| "match_here ((a, Star) # p) s =
     ((case s of [] \<Rightarrow> False | c # cs \<Rightarrow> atom_matches a c \<and> match_here ((a, Star) # p) cs)
      \<or> match_here p s)"
| "match_here ((a, Plus) # p) s =
     (case s of [] \<Rightarrow> False | c # cs \<Rightarrow> atom_matches a c \<and> match_here ((a, Star) # p) cs)"
  by pat_completeness auto
termination
  by (relation "measure (\<lambda>(p, s). length p + length s)") auto

definition match_any :: "regex \<Rightarrow> string \<Rightarrow> bool" where
  "match_any r s = list_ex (\<lambda>p. match_here p s) r"

text \<open>\<^verbatim>\<open>regex.test(text)\<close> for a regex without flags: a match may start at any
  position, the end of the text included.\<close>

fun test :: "regex \<Rightarrow> string \<Rightarrow> bool" where
  "test r [] = match_any r []"
| "test r (c # cs) = (match_any r (c # cs) \<or> test r cs)"

text \<open>\<^verbatim>\<open>string.replace(/[.*+?^${}()|[\]\\]/g, '\\$&')\<close>: every character of the class
  is replaced by a backslash and itself.\<close>

definition escape_class :: "char list" where
  "escape_class =
     [CHR ''.'', CHR ''*'', CHR ''+'', CHR ''?'', CHR ''^'', CHR ''$'', CHR ''{'', CHR ''}'',
      CHR ''('', CHR '')'', CHR ''|'', CHR ''['', CHR '']'', backslash]"

fun escape_replace :: "string \<Rightarrow> string" where
  "escape_replace [] = []"
| "escape_replace (c # cs) =
     (if c \<in> set escape_class then backslash # c # escape_replace cs
      else c # escape_replace cs)"

subsection \<open>Base64\<close>

text \<open>\<^verbatim>\<open>buffer.toString('base64')\<close>: three bytes give four characters of the
  alphabet; one or two remaining bytes are padded with \<^verbatim>\<open>=\<close>.\<close>

type_synonym byte = "8 word"

definition base64_alphabet :: string where
  "base64_alphabet =
     ''ABCDEFGHIJKLMNOPQRSTUVWXYZabcdefghijklmnopqrstuvwxyz0123456789+/''"

definition sextet :: "nat \<Rightarrow> char" where
  "sextet i = base64_alphabet ! (i mod 64)"

fun toString_base64 :: "byte list \<Rightarrow> string" where
  "toString_base64 [] = []"
| "toString_base64 [a] =
     [sextet (unat a div 4), sextet (unat a mod 4 * 16), CHR ''='', CHR ''='']"
| "toString_base64 [a, b] =
     [sextet (unat a div 4), sextet (unat a mod 4 * 16 + unat b div 16),
      sextet (unat b mod 16 * 4), CHR ''='']"
| "toString_base64 (a # b # c # bs) =
     sextet (unat a div 4) # sextet (unat a mod 4 * 16 + unat b div 16) #
     sextet (unat b mod 16 * 4 + unat c div 64) # sextet (unat c mod 64) #
     toString_base64 bs"

subsection \<open>The class ImageFile\<close>

text \<open>\<^verbatim>\<open>string.match(RegExp(`.{1,${n}}`, "g"))\<close>: the successive matches of at least
  one and at most \<open>n\<close> characters other than line terminators, taken greedily from left
  to right; a position where nothing matches is skipped.  The engine rejects the quantifier
  \<^verbatim>\<open>{1,0}\<close>, and \<^verbatim>\<open>match\<close> answers \<^verbatim>\<open>null\<close> when there is no match at all.\<close>

function dot_runs :: "nat \<Rightarrow> string \<Rightarrow> string list" where
  "dot_runs n [] = []"
| "dot_runs n (c # cs) =
     (let run = takeWhile (\<lambda>d. \<not> is_line_terminator d) (take n (c # cs))
      in if run = [] then dot_runs n cs
         else run # dot_runs n (drop (length run) (c # cs)))"
  by pat_completeness auto
termination
  by (relation "measure (\<lambda>(n, s). length s)") (auto simp: Let_def)

definition match_chunks :: "nat \<Rightarrow> string \<Rightarrow> js_error + string list option" where
  "match_chunks n s =
     (if n = 0 then Inl SyntaxError
      else (case dot_runs n s of [] \<Rightarrow> Inr None | r # rs \<Rightarrow> Inr (Some (r # rs))))"

record ImageFile =
  filePath :: string
  base64 :: string
  chunks :: "string list option"

text \<open>The constructor, after the file has been read: \<open>bytes\<close> is the content of
  \<open>filePath\<close>.\<close>

definition ImageFile_of_bytes :: "config \<Rightarrow> string \<Rightarrow> byte list \<Rightarrow> js_error + ImageFile" where
  "ImageFile_of_bytes cfg path bytes =
     (let b = toString_base64 bytes
      in case match_chunks (partialChunks cfg) b of
           Inl e \<Rightarrow> Inl e
         | Inr cs \<Rightarrow> Inr \<lparr> filePath = path, base64 = b, chunks = cs \<rparr>)"

text \<open>\<^verbatim>\<open>existsInData(data)\<close>.\<close>

definition literal_test :: "string \<Rightarrow> string \<Rightarrow> js_error + bool" where
  "literal_test needle data =
     (case RegExp (escape_replace needle) of
        Inl e \<Rightarrow> Inl e
      | Inr r \<Rightarrow> Inr (test r data))"

definition existsInData :: "ImageFile \<Rightarrow> string \<Rightarrow> js_error + bool" where
  "existsInData file data = literal_test (base64 file) data"

text \<open>
  \<^verbatim>\<open>chunksExistInData(data)\<close>.  \<^verbatim>\<open>Array.prototype.every\<close> calls the callback on the
  elements from left to right and stops at the first call that returns false.  The callback
  of the source sets the captured variable \<^verbatim>\<open>exists\<close>; the state threaded here holds
  that variable and, for the statement of the evaluation order, the chunks on which the
  regular expression has been tested so far.
\<close>

record chunk_scan =
  exists_flag :: bool
  tested :: "string list"

fun every :: "('a \<Rightarrow> 's \<Rightarrow> js_error + bool \<times> 's) \<Rightarrow> 'a list \<Rightarrow> 's \<Rightarrow> js_error + bool \<times> 's" where
  "every f [] st = Inr (True, st)"
| "every f (x # xs) st =
     (case f x st of
        Inl e \<Rightarrow> Inl e
      | Inr (r, st') \<Rightarrow> if r then every f xs st' else Inr (False, st'))"

definition chunk_callback :: "string \<Rightarrow> string \<Rightarrow> chunk_scan \<Rightarrow> js_error + bool \<times> chunk_scan" where
  "chunk_callback data chunk st =
     (case literal_test chunk data of
        Inl e \<Rightarrow> Inl e
      | Inr checkChunk \<Rightarrow>
          (let st1 = st\<lparr> tested := tested st @ [chunk] \<rparr>
           in if checkChunk then Inr (False, st1\<lparr> exists_flag := True \<rparr>)
              else Inr (True, st1)))"

definition chunks_scan :: "ImageFile \<Rightarrow> string \<Rightarrow> js_error + chunk_scan" where
  "chunks_scan file data =
     (case chunks file of
        None \<Rightarrow> Inl TypeError
      | Some cs \<Rightarrow>
          (case every (chunk_callback data) cs \<lparr> exists_flag = False, tested = [] \<rparr> of
             Inl e \<Rightarrow> Inl e
           | Inr (r, st) \<Rightarrow> Inr st))"

definition chunksExistInData :: "ImageFile \<Rightarrow> string \<Rightarrow> js_error + bool" where
  "chunksExistInData file data =
     (case chunks_scan file data of Inl e \<Rightarrow> Inl e | Inr st \<Rightarrow> Inr (exists_flag st))"

subsection \<open>The world: files, console, process exit\<close>

text \<open>
  What the program sees of the file system.  \<open>nodes\<close> maps a path, as the program spells
  it, to what is there: a regular file with its bytes, a directory with its entries, or
  something else; \<open>None\<close> inside stands for "exists but cannot be read".  The two files
  the program writes, \<^verbatim>\<open>store.db\<close> and \<^verbatim>\<open>logs.log\<close>, are kept apart from
  \<open>nodes\<close>; \<^verbatim>\<open>store.db\<close> is held as the text that converting its bytes to a string
  gives.  Whether a write to them succeeds is a property of the world.
\<close>

datatype node = File "byte list option" | Dir "string list option" | Special

datatype console_line = Info string | Error string

record world =
  nodes :: "string \<Rightarrow> node option"
  store_db :: "string option"
  store_readable :: bool
  store_writable :: bool
  logs_log :: string
  logs_writable :: bool
  console :: "console_line list"

text \<open>How the process ended: through \<^verbatim>\<open>exit()\<close>, through the
  \<^verbatim>\<open>process.exit(1)\<close> at the end of \<^verbatim>\<open>help()\<close>, by an exception nobody caught, or
  by reaching the end of the script.\<close>

datatype ending = Exit_routine | Help_exit | Uncaught_exception | End_of_script

record outcome =
  status :: nat
  ended_by :: ending
  world_after :: world

text \<open>A call returns a value, throws, or ends the process.\<close>

datatype 'a result = Return 'a world | Throw js_error world | Exit outcome

definition nl :: string where
  "nl = [CHR 0x0A]"

text \<open>The text an error contributes to a log message; only the name of the error is
  modelled, the wording after it depends on the engine.\<close>

fun error_text :: "js_error \<Rightarrow> string" where
  "error_text SyntaxError = ''SyntaxError''"
| "error_text TypeError = ''TypeError''"
| "error_text ReferenceError = ''ReferenceError''"
| "error_text SystemError = ''Error''"
| "error_text OutsideFragment = ''OutsideFragment''"

fun string_of_nat :: "nat \<Rightarrow> string" where
  "string_of_nat n =
     (if n < 10 then [''0123456789'' ! n]
      else string_of_nat (n div 10) @ [''0123456789'' ! (n mod 10)])"

declare string_of_nat.simps [simp del]

definition store_text :: "world \<Rightarrow> string" where
  "store_text w = (case store_db w of None \<Rightarrow> [] | Some s \<Rightarrow> s)"

subsection \<open>log and exit\<close>

definition logLevels :: "string list" where
  "logLevels = [''INFO'', ''WARNING'', ''CRITICAL'']"

definition level_name :: "nat \<Rightarrow> string" where
  "level_name level = (if level < length logLevels then logLevels ! level else ''undefined'')"

definition log :: "string \<Rightarrow> nat \<Rightarrow> js_error option \<Rightarrow> world \<Rightarrow> world" where
  "log message level err w =
     (let logMessage0 = level_name level @ '' '' @ message;
          logMessage = (case err of None \<Rightarrow> logMessage0
                        | Some e \<Rightarrow> logMessage0 @ nl @ error_text e);
          w1 = w\<lparr> console := console w @ [Info logMessage] \<rparr>
      in if logs_writable w1 then w1\<lparr> logs_log := logs_log w1 @ logMessage @ nl \<rparr>
         else w1\<lparr> console := console w1 @ [Error (error_text SystemError)] \<rparr>)"

definition exit :: "string \<Rightarrow> nat \<Rightarrow> js_error option \<Rightarrow> world \<Rightarrow> outcome" where
  "exit message level err w =
     \<lparr> status = 1, ended_by = Exit_routine,
       world_after = log ''Exiting...'' 0 None (log message level err w) \<rparr>"

subsection \<open>validate and preload\<close>

definition checkFileExtension :: "config \<Rightarrow> string \<Rightarrow> js_error + bool" where
  "checkFileExtension cfg s =
     (case RegExp (imageExtensions cfg) of Inl e \<Rightarrow> Inl e | Inr r \<Rightarrow> Inr (test r s))"

definition validate :: "config \<Rightarrow> string \<Rightarrow> js_error + bool" where
  "validate cfg file =
     (case checkFileExtension cfg file of
        Inl e \<Rightarrow> Inl e
      | Inr ok \<Rightarrow> if \<not> ok then Inr False else Inr True)"

text \<open>\<^verbatim>\<open>new ImageFile(filePath)\<close>: \<^verbatim>\<open>readFileSync\<close> throws unless the path is a
  readable regular file.\<close>

definition new_ImageFile :: "config \<Rightarrow> world \<Rightarrow> string \<Rightarrow> js_error + ImageFile" where
  "new_ImageFile cfg w path =
     (case nodes w path of
        Some (File (Some bytes)) \<Rightarrow> ImageFile_of_bytes cfg path bytes
      | _ \<Rightarrow> Inl SystemError)"

record stats =
  tally :: nat
  total :: nat

record preloaded =
  files :: "ImageFile list"
  stats :: stats
  data :: string

text \<open>The \<^verbatim>\<open>forEach\<close> over the entries of a directory.\<close>

fun preload_items :: "config \<Rightarrow> world \<Rightarrow> string \<Rightarrow> string list \<Rightarrow> ImageFile list
    \<Rightarrow> js_error + ImageFile list" where
  "preload_items cfg w dir [] fs = Inr fs"
| "preload_items cfg w dir (item # items) fs =
     (let filePath = dir @ ''/'' @ item
      in case validate cfg filePath of
           Inl e \<Rightarrow> Inl e
         | Inr False \<Rightarrow> preload_items cfg w dir items fs
         | Inr True \<Rightarrow>
             (case new_ImageFile cfg w filePath of
                Inl e \<Rightarrow> Inl e
              | Inr f \<Rightarrow> preload_items cfg w dir items (fs @ [f])))"

definition preload :: "config \<Rightarrow> string list \<Rightarrow> world \<Rightarrow> preloaded result" where
  "preload cfg args w =
     (case args of
        [] \<Rightarrow> Throw TypeError w
      | arg0 # _ \<Rightarrow>
          (case nodes w arg0 of
             None \<Rightarrow> Throw SystemError w
           | Some arg \<Rightarrow>
               (case (case arg of
                        Dir None \<Rightarrow> Inl SystemError
                      | Dir (Some items) \<Rightarrow> preload_items cfg w arg0 items []
                      | File content \<Rightarrow>
                          (case validate cfg arg0 of
                             Inl e \<Rightarrow> Inl e
                           | Inr False \<Rightarrow> Inr []
                           | Inr True \<Rightarrow>
                               (case new_ImageFile cfg w arg0 of
                                  Inl e \<Rightarrow> Inl e
                                | Inr file \<Rightarrow> Inr [file]))
                      | Special \<Rightarrow> Inr []) of
                  Inl e \<Rightarrow> Throw e w
                | Inr fs \<Rightarrow>
                    if length fs = 0
                    then Exit (exit ''No files with accepted extensions found'' 1 None w)
                    else
                      (case store_db w of
                         None \<Rightarrow> Throw SystemError w
                       | Some text \<Rightarrow>
                           if \<not> store_readable w then Throw SystemError w
                           else Return \<lparr> files = fs,
                                         stats = \<lparr> tally = 0, total = length fs \<rparr>,
                                         data = text \<rparr> w))))"

subsection \<open>store and flag\<close>

text \<open>\<^verbatim>\<open>fs.appendFileSync('store.db', text)\<close>, which creates the file when it is
  missing.\<close>

definition append_store :: "string \<Rightarrow> world \<Rightarrow> world" where
  "append_store text w = w\<lparr> store_db := Some (store_text w @ text) \<rparr>"

definition store :: "ImageFile \<Rightarrow> string \<Rightarrow> world \<Rightarrow> bool result" where
  "store file dat w =
     (case existsInData file dat of
        Inl e \<Rightarrow> Throw e w
      | Inr True \<Rightarrow>
          Return False
            (log (''File has already been added to data store: '' @ ''[object Object]'') 1 None w)
      | Inr False \<Rightarrow>
          if store_writable w
          then Return True
                 (log (''File flagged: '' @ filePath file) 0 None
                    (append_store (base64 file @ nl) w))
          else Exit (exit (''Error storing file: '' @ filePath file) 2 (Some SystemError) w))"

text \<open>The body of the \<^verbatim>\<open>forEach\<close> in \<^verbatim>\<open>flag\<close>.\<close>

definition flag_file :: "string \<Rightarrow> ImageFile \<Rightarrow> stats \<Rightarrow> world \<Rightarrow> stats result" where
  "flag_file dat file st w =
     (case existsInData file dat of
        Inl e \<Rightarrow> Throw e w
      | Inr ex \<Rightarrow>
          if \<not> ex then
            (case store file dat w of
               Return save w' \<Rightarrow> Return (if save then st\<lparr> tally := tally st + 1 \<rparr> else st) w'
             | Throw e w' \<Rightarrow> Throw e w'
             | Exit out \<Rightarrow> Exit out)
          else Return st (log (''File already exists in data store: '' @ filePath file) 0 None w))"

fun forEach :: "('a \<Rightarrow> 's \<Rightarrow> world \<Rightarrow> 's result) \<Rightarrow> 'a list \<Rightarrow> 's \<Rightarrow> world \<Rightarrow> 's result" where
  "forEach f [] st w = Return st w"
| "forEach f (x # xs) st w =
     (case f x st w of
        Return st' w' \<Rightarrow> forEach f xs st' w'
      | Throw e w' \<Rightarrow> Throw e w'
      | Exit out \<Rightarrow> Exit out)"

definition flag :: "config \<Rightarrow> string list \<Rightarrow> world \<Rightarrow> unit result" where
  "flag cfg args w =
     (case preload cfg args w of
        Throw e w' \<Rightarrow> Throw e w'
      | Exit out \<Rightarrow> Exit out
      | Return pre w1 \<Rightarrow>
          (case forEach (flag_file (data pre)) (files pre) (stats pre) w1 of
             Throw e w' \<Rightarrow> Throw e w'
           | Exit out \<Rightarrow> Exit out
           | Return st w2 \<Rightarrow>
               Exit (exit (''Flag complete. Added '' @ string_of_nat (tally st) @ ''/'' @
                           string_of_nat (total st) @ '' file(s).'') 0 None w2)))"

subsection \<open>check\<close>

definition check_file :: "string list \<Rightarrow> string \<Rightarrow> ImageFile \<Rightarrow> stats \<Rightarrow> world \<Rightarrow> stats result" where
  "check_file args dat file st w =
     (case (if ''--partial'' \<in> set args then chunksExistInData file dat else Inr False) of
        Inl e \<Rightarrow> Throw e w
      | Inr chunkExists \<Rightarrow>
          (case existsInData file dat of
             Inl e \<Rightarrow> Throw e w
           | Inr ex \<Rightarrow>
               if ex \<or> chunkExists
               then Return (st\<lparr> tally := tally st + 1 \<rparr>)
                      (log (''File found in data store: '' @ filePath file) 0 None w)
               else Return st
                      (log (''Did not find file in data store: '' @ filePath file) 0 None w)))"

definition check :: "config \<Rightarrow> string list \<Rightarrow> world \<Rightarrow> unit result" where
  "check cfg args w =
     (case preload cfg args w of
        Throw e w' \<Rightarrow> Throw e w'
      | Exit out \<Rightarrow> Exit out
      | Return pre w1 \<Rightarrow>
          (case forEach (check_file args (data pre)) (files pre) (stats pre) w1 of
             Throw e w' \<Rightarrow> Throw e w'
           | Exit out \<Rightarrow> Exit out
           | Return st w2 \<Rightarrow>
               Exit (exit (''Check complete. Found '' @ string_of_nat (tally st) @ ''/'' @
                           string_of_nat (total st) @ '' file(s) matching in data store.'')
                       0 None w2)))"

subsection \<open>help\<close>

text \<open>The function \<^verbatim>\<open>help()\<close> of the source is \<open>help_command\<close> here.\<close>

definition help_flag_text :: string where
  "help_flag_text =
     ''The flag command will flag either an individual image or directory of images.'' @ nl @ nl @
     ''ex: node index.js flag images/anvil-partial.png''"

definition help_check_text :: string where
  "help_check_text =
     ''The check command will check an image, or directory of images. it includes the'' @ nl @
     ''optional parameter --partial, which will break up the base64 into chunks.'' @ nl @ nl @
     ''ex: node index.js check images/anvil-partial.png''"

definition help_general_text :: string where
  "help_general_text =
     ''Welcome to the image checker tool. This tool will check the base64 of an image'' @ nl @
     ''against store of base64 strings. Images can be flagged by directory, and checked'' @ nl @
     ''by directory.'' @ nl @ nl @
     ''Commands:'' @ nl @
     ''flag image|dir - flags an image or dir and stores it into the store.db'' @ nl @
     ''check image|dir [...options] - checks an image or dir against the store.db'' @ nl @ nl @
     ''Options:'' @ nl @
     ''--partial - chunks image(s) base64 and checks each chunk against the store.db''"

text \<open>\<^verbatim>\<open>process.argv[2]\<close>; \<^verbatim>\<open>undefined\<close> is \<open>None\<close>.\<close>

definition argv2 :: "string list \<Rightarrow> string option" where
  "argv2 argv = (if 2 < length argv then Some (argv ! 2) else None)"

definition help_command :: "string list \<Rightarrow> world \<Rightarrow> outcome" where
  "help_command argv w =
     (let text =
        (if argv2 argv = Some ''flag'' then help_flag_text
         else if argv2 argv = Some ''check'' then help_check_text
         else if argv2 argv = Some ''--help'' then help_general_text
         else ''Command is not found.'')
      in \<lparr> status = 1, ended_by = Help_exit,
           world_after = w\<lparr> console := console w @ [Info text] \<rparr> \<rparr>)"

subsection \<open>The script\<close>

text \<open>\<^verbatim>\<open>array.toString()\<close> of an array of strings: the elements joined by commas.\<close>

fun join_commas :: "string list \<Rightarrow> string" where
  "join_commas [] = []"
| "join_commas [x] = x"
| "join_commas (x # y # ys) = x @ '','' @ join_commas (y # ys)"

text \<open>
  \<^verbatim>\<open>eval(process.argv[2])(process.argv.slice(3))\<close>.  When the argument is the name of
  one of the functions the script declares, that function is called with the remaining
  arguments.  What any other text evaluates to, and does when called, is decided by the
  JavaScript engine and is a parameter \<open>engine\<close> of the model.
\<close>

definition dispatch :: "config \<Rightarrow> (string \<Rightarrow> string list \<Rightarrow> world \<Rightarrow> unit result) \<Rightarrow>
    string list \<Rightarrow> world \<Rightarrow> unit result" where
  "dispatch cfg engine argv w =
     (let command = argv ! 2; args = drop 3 argv in
      if command = ''flag'' then flag cfg args w
      else if command = ''check'' then check cfg args w
      else if command = ''help'' then Exit (help_command argv w)
      else if command = ''exit'' then Exit (exit (join_commas args) 0 None w)
      else if command = ''log'' then Return () (log (join_commas args) 0 None w)
      else if command = ''validate'' then
        (case validate cfg (join_commas args) of Inl e \<Rightarrow> Throw e w | Inr b \<Rightarrow> Return () w)
      else if command = ''preload'' then
        (case preload cfg args w of
           Return pre w' \<Rightarrow> Return () w'
         | Throw e w' \<Rightarrow> Throw e w'
         | Exit out \<Rightarrow> Exit out)
      else if command = ''store'' then Throw TypeError w
      else engine command args w)"

definition main :: "config \<Rightarrow> (string \<Rightarrow> string list \<Rightarrow> world \<Rightarrow> unit result) \<Rightarrow>
    string list \<Rightarrow> world \<Rightarrow> outcome" where
  "main cfg engine argv w =
     (if length argv \<le> 2
      then exit ''Command missing. Use --help to view current commands.'' 2 None w
      else if ''--help'' \<in> set argv then help_command argv w
      else if store_db w = None \<and> \<not> store_writable w
      then \<lparr> status = 1, ended_by = Uncaught_exception, world_after = w \<rparr>
      else
        (let w1 = (if store_db w = None then w\<lparr> store_db := Some [] \<rparr> else w) in
         case dispatch cfg engine argv w1 of
           Return u w2 \<Rightarrow> \<lparr> status = 0, ended_by = End_of_script, world_after = w2 \<rparr>
         | Throw e w2 \<Rightarrow> exit (''Command not found: '' @ argv ! 2) 2 (Some e) w2
         | Exit out \<Rightarrow> out))"

subsection \<open>Notions used in the statements\<close>

text \<open>What one call of \<open>log\<close> prints: the message, and the error of the failed write
  when \<^verbatim>\<open>logs.log\<close> cannot be written.\<close>

definition echo :: "world \<Rightarrow> string \<Rightarrow> console_line list" where
  "echo w m = (if logs_writable w then [Info m] else [Info m, Error ''Error''])"

text \<open>The world in which a call has left the process.\<close>

fun result_world :: "'a result \<Rightarrow> world" where
  "result_world (Return x w) = w"
| "result_world (Throw e w) = w"
| "result_world (Exit out) = world_after out"


text \<open>The lines of the store: the pieces of the text that a newline ends, and the rest
  after the last newline when it is not empty.\<close>

fun lines_from :: "string \<Rightarrow> string \<Rightarrow> string list" where
  "lines_from cur [] = (if cur = [] then [] else [cur])"
| "lines_from cur (c # cs) =
     (if c = CHR 0x0A then cur # lines_from [] cs else lines_from (cur @ [c]) cs)"

definition store_lines :: "string \<Rightarrow> string list" where
  "store_lines text = lines_from [] text"

definition no_duplicate_lines :: "string \<Rightarrow> bool" where
  "no_duplicate_lines text = distinct (store_lines text)"

subsection \<open>A small world for concrete runs\<close>

text \<open>
  A directory \<^verbatim>\<open>imgs\<close> with two image files of the same single zero byte and a text
  file, an empty image \<^verbatim>\<open>e.png\<close>, and a text file whose name contains \<^verbatim>\<open>png\<close>.
  There is no \<^verbatim>\<open>store.db\<close> yet.
\<close>

definition example_world :: world where
  "example_world =
     \<lparr> nodes = (\<lambda>p.
         if p = ''imgs'' then Some (Dir (Some [''a.png'', ''b.png'', ''c.txt'']))
         else if p = ''imgs/a.png'' then Some (File (Some [0]))
         else if p = ''imgs/b.png'' then Some (File (Some [0]))
         else if p = ''imgs/c.txt'' then Some (File (Some [104, 105]))
         else if p = ''e.png'' then Some (File (Some []))
         else if p = ''png_notes.txt'' then Some (File (Some [1, 2, 3]))
         else None),
       store_db = None, store_readable = True, store_writable = True,
       logs_log = [], logs_writable = True, console = [] \<rparr>"

text \<open>An engine for which every text that is not a function of the script is an
  undeclared identifier.\<close>

definition undeclared :: "string \<Rightarrow> string list \<Rightarrow> world \<Rightarrow> unit result" where
  "undeclared command args w = Throw ReferenceError w"

text \<open>The same world after \<^verbatim>\<open>imgs/a.png\<close> has been flagged.\<close>

definition stocked_world :: world where
  "stocked_world = example_world\<lparr> store_db := Some (''AA=='' @ nl) \<rparr>"


section \<open>Properties\<close>

subsection \<open>Escaped patterns are literal\<close>

lemma escape_class_syntax: "set escape_class = set syntax_chars"
  by (auto simp: escape_class_def syntax_chars_def)

lemma tokenize_escape: "tokenize (escape_replace s) = Inr (map (\<lambda>c. TAtom (Chr c)) s)"
proof (induction s)
  case Nil
  show ?case by simp
next
  case (Cons c s)
  show ?case
  proof (cases "c \<in> set escape_class")
    case True
    then show ?thesis
      using Cons by (simp add: is_syntax_char_def escape_class_syntax cons_token_def)
  next
    case False
    then have "c \<noteq> backslash" "c \<noteq> CHR ''.''" "c \<noteq> CHR ''|''" "c \<noteq> CHR ''*''"
      "c \<noteq> CHR ''+''" "c \<noteq> CHR ''?''" "\<not> is_syntax_char c"
      by (auto simp: escape_class_def is_syntax_char_def syntax_chars_def)
    then show ?thesis
      using False Cons by (simp add: cons_token_def)
  qed
qed

lemma split_bars_atoms:
  "split_bars (map (\<lambda>c. TAtom (Chr c)) s) = [map (\<lambda>c. TAtom (Chr c)) s]"
  by (induction s) auto

lemma parse_alternative_atoms:
  "parse_alternative (map (\<lambda>c. TAtom (Chr c)) s) = Inr (map (\<lambda>c. (Chr c, Once)) s)"
proof (induction s)
  case Nil
  show ?case by simp
next
  case (Cons c s)
  then show ?case by (cases s) auto
qed

lemma RegExp_escape: "RegExp (escape_replace s) = Inr [map (\<lambda>c. (Chr c, Once)) s]"
  by (simp add: RegExp_def tokenize_escape split_bars_atoms parse_alternative_atoms)

lemma match_here_literal: "match_here (map (\<lambda>c. (Chr c, Once)) n) s = prefix n s"
proof (induction n arbitrary: s)
  case Nil
  show ?case by simp
next
  case (Cons c n)
  then show ?case by (cases s) auto
qed

lemma match_any_literals:
  "match_any (map (\<lambda>n. map (\<lambda>c. (Chr c, Once)) n) ns) s = (\<exists>n\<in>set ns. prefix n s)"
  by (simp add: match_any_def list_ex_iff match_here_literal)

lemma test_literals:
  "test (map (\<lambda>n. map (\<lambda>c. (Chr c, Once)) n) ns) s = (\<exists>n\<in>set ns. sublist n s)"
proof (induction s)
  case Nil
  show ?case by (simp add: match_any_literals)
next
  case (Cons c s)
  then show ?case by (auto simp: match_any_literals sublist_Cons_right)
qed

lemma test_literal: "test [map (\<lambda>c. (Chr c, Once)) n] s = sublist n s"
  using test_literals [of "[n]" s] by simp

lemma literal_test_sublist: "literal_test needle dat = Inr (sublist needle dat)"
  by (simp add: literal_test_def RegExp_escape test_literal)

lemma existsInData_sublist: "existsInData file dat = Inr (sublist (base64 file) dat)"
  by (simp add: existsInData_def literal_test_sublist)

text \<open>Without the escaping, \<^verbatim>\<open>+\<close> is a quantifier: the pattern \<^verbatim>\<open>a+b\<close> does not
  occur in the text \<^verbatim>\<open>a+b\<close>, and occurs in \<^verbatim>\<open>xaab\<close>.\<close>

lemma unescaped_plus_is_a_quantifier:
  "(case RegExp ''a+b'' of Inl e \<Rightarrow> None | Inr r \<Rightarrow> Some (test r ''a+b'', test r ''xaab''))
     = Some (False, True)"
  by (simp add: RegExp_def backslash_def is_syntax_char_def syntax_chars_def match_any_def
        cons_token_def)

text \<open>
  Claim C1.  For every image and every store text, \<open>existsInData\<close> returns true if and
  only if the base64 string of the image occurs as a contiguous part of the store text.
  The characters that mean something to the regular expression engine are taken literally:
  the regular expression built from the escaped string consists of one alternative of
  literal characters, each to be matched once.
\<close>

theorem existsInData_literal_substring:
  "RegExp (escape_replace (base64 file)) = Inr [map (\<lambda>c. (Chr c, Once)) (base64 file)] \<and>
   existsInData file dat = Inr (sublist (base64 file) dat)"
  by (simp add: RegExp_escape existsInData_sublist)

theorem existsInData_literal_substring_witness:
  "existsInData \<lparr> filePath = ''a.png'', base64 = ''a+b/c='', chunks = Some [''a+b/c=''] \<rparr>
     ''xxa+b/c=yy'' = Inr True \<and>
   existsInData \<lparr> filePath = ''a.png'', base64 = ''a+b'', chunks = Some [''a+b''] \<rparr>
     ''xxaaab'' = Inr False"
  using existsInData_literal_substring
          [of "\<lparr> filePath = ''a.png'', base64 = ''a+b/c='', chunks = Some [''a+b/c=''] \<rparr>"
              "''xxa+b/c=yy''"]
        existsInData_literal_substring
          [of "\<lparr> filePath = ''a.png'', base64 = ''a+b'', chunks = Some [''a+b''] \<rparr>"
              "''xxaaab''"]
  by (simp add: sublist_code prefix_code)

subsection \<open>The scan of the chunks\<close>

lemma chunk_callback_eq:
  "chunk_callback dat c st =
     (if sublist c dat then Inr (False, st\<lparr> tested := tested st @ [c], exists_flag := True \<rparr>)
      else Inr (True, st\<lparr> tested := tested st @ [c] \<rparr>))"
  by (simp add: chunk_callback_def literal_test_sublist Let_def)

lemma every_chunk_callback:
  "every (chunk_callback dat) cs st =
     Inr (\<not> (\<exists>c\<in>set cs. sublist c dat),
          st\<lparr> exists_flag := (exists_flag st \<or> (\<exists>c\<in>set cs. sublist c dat)),
              tested := tested st @ takeWhile (\<lambda>c. \<not> sublist c dat) cs
                          @ take 1 (dropWhile (\<lambda>c. \<not> sublist c dat) cs) \<rparr>)"
proof (induction cs arbitrary: st)
  case Nil
  show ?case by simp
next
  case (Cons c cs)
  show ?case
  proof (cases "sublist c dat")
    case True
    then show ?thesis by (simp add: chunk_callback_eq)
  next
    case False
    then have "every (chunk_callback dat) (c # cs) st =
               every (chunk_callback dat) cs (st\<lparr> tested := tested st @ [c] \<rparr>)"
      by (simp add: chunk_callback_eq)
    also have "\<dots> = Inr (\<not> (\<exists>c\<in>set cs. sublist c dat),
          st\<lparr> exists_flag := (exists_flag st \<or> (\<exists>c\<in>set cs. sublist c dat)),
              tested := tested st @ [c] @ takeWhile (\<lambda>c. \<not> sublist c dat) cs
                          @ take 1 (dropWhile (\<lambda>c. \<not> sublist c dat) cs) \<rparr>)"
      by (subst Cons) simp
    finally show ?thesis
      using False by simp
  qed
qed

text \<open>
  Claim C2.  For an image that has a chunk sequence and every store text,
  \<open>chunksExistInData\<close> returns true if and only if at least one chunk occurs as a
  contiguous part of the store text.  The chunks are tested from left to right: the chunks
  tested are those before the first chunk that occurs, and that chunk; so the scan stops
  at the first match, and when the answer is false every chunk has been tested.
\<close>

theorem chunksExistInData_first_match:
  assumes "chunks file = Some cs"
  shows "chunksExistInData file dat = Inr (\<exists>c\<in>set cs. sublist c dat) \<and>
         chunks_scan file dat =
           Inr \<lparr> exists_flag = (\<exists>c\<in>set cs. sublist c dat),
                 tested = takeWhile (\<lambda>c. \<not> sublist c dat) cs
                          @ take 1 (dropWhile (\<lambda>c. \<not> sublist c dat) cs) \<rparr> \<and>
         (chunksExistInData file dat = Inr False \<longrightarrow>
            chunks_scan file dat = Inr \<lparr> exists_flag = False, tested = cs \<rparr>)"
proof -
  have scan: "chunks_scan file dat =
           Inr \<lparr> exists_flag = (\<exists>c\<in>set cs. sublist c dat),
                 tested = takeWhile (\<lambda>c. \<not> sublist c dat) cs
                          @ take 1 (dropWhile (\<lambda>c. \<not> sublist c dat) cs) \<rparr>"
    using assms by (simp add: chunks_scan_def every_chunk_callback)
  then have res: "chunksExistInData file dat = Inr (\<exists>c\<in>set cs. sublist c dat)"
    by (simp add: chunksExistInData_def)
  have "takeWhile (\<lambda>c. \<not> sublist c dat) cs @ take 1 (dropWhile (\<lambda>c. \<not> sublist c dat) cs) = cs"
    if "\<not> (\<exists>c\<in>set cs. sublist c dat)"
  proof -
    from that have "\<forall>c\<in>set cs. \<not> sublist c dat" by simp
    then have tw: "takeWhile (\<lambda>c. \<not> sublist c dat) cs = cs"
      and dw: "dropWhile (\<lambda>c. \<not> sublist c dat) cs = []"
      by (simp_all add: takeWhile_eq_all_conv dropWhile_eq_Nil_conv)
    show ?thesis by (simp only: tw dw take.simps append_Nil2)
  qed
  with scan res show ?thesis by auto
qed

theorem chunksExistInData_first_match_witness:
  "chunks \<lparr> filePath = ''b.png'', base64 = ''XYZABCD1234QQQ'',
            chunks = Some [''XYZA'', ''BCD1'', ''234Q'', ''QQ''] \<rparr>
     = Some [''XYZA'', ''BCD1'', ''234Q'', ''QQ''] \<and>
   chunksExistInData \<lparr> filePath = ''b.png'', base64 = ''XYZABCD1234QQQ'',
            chunks = Some [''XYZA'', ''BCD1'', ''234Q'', ''QQ''] \<rparr> ''ABCD1234'' = Inr True \<and>
   chunks_scan \<lparr> filePath = ''b.png'', base64 = ''XYZABCD1234QQQ'',
            chunks = Some [''XYZA'', ''BCD1'', ''234Q'', ''QQ''] \<rparr> ''ABCD1234''
     = Inr \<lparr> exists_flag = True, tested = [''XYZA'', ''BCD1''] \<rparr>"
proof -
  have h: "chunks \<lparr> filePath = ''b.png'', base64 = ''XYZABCD1234QQQ'',
            chunks = Some [''XYZA'', ''BCD1'', ''234Q'', ''QQ''] \<rparr>
     = Some [''XYZA'', ''BCD1'', ''234Q'', ''QQ'']"
    by simp
  show ?thesis
    using chunksExistInData_first_match [OF h, of "''ABCD1234''"]
    by (simp add: sublist_code prefix_code)
qed

subsection \<open>What log, exit and the append change\<close>

lemma log_frame [simp]:
  "nodes (log m l e w) = nodes w"
  "store_db (log m l e w) = store_db w"
  "store_readable (log m l e w) = store_readable w"
  "store_writable (log m l e w) = store_writable w"
  "logs_writable (log m l e w) = logs_writable w"
  by (simp_all add: log_def Let_def)

lemma store_text_log [simp]: "store_text (log m l e w) = store_text w"
  by (simp add: store_text_def)

lemma console_log:
  "console (log m l e w) =
     console w @ echo w (level_name l @ '' '' @ m @
                         (case e of None \<Rightarrow> [] | Some x \<Rightarrow> nl @ error_text x))"
  by (simp add: log_def Let_def echo_def split: option.splits)

lemma echo_log [simp]: "echo (log m l e w) = echo w"
  by (simp add: echo_def fun_eq_iff)

lemma level_names [simp]:
  "level_name 0 = ''INFO''" "level_name 1 = ''WARNING''" "level_name 2 = ''CRITICAL''"
  by (simp_all add: level_name_def logLevels_def)

lemma string_of_nat_small [simp]:
  "string_of_nat 0 = ''0''" "string_of_nat 1 = ''1''" "string_of_nat (Suc 0) = ''1''"
  by (simp_all add: string_of_nat.simps)

lemma exit_simps [simp]:
  "status (exit m l e w) = 1"
  "ended_by (exit m l e w) = Exit_routine"
  "world_after (exit m l e w) = log ''Exiting...'' 0 None (log m l e w)"
  by (simp_all add: exit_def)

lemma append_store_frame [simp]:
  "nodes (append_store t w) = nodes w"
  "store_db (append_store t w) = Some (store_text w @ t)"
  "store_readable (append_store t w) = store_readable w"
  "store_writable (append_store t w) = store_writable w"
  "logs_writable (append_store t w) = logs_writable w"
  "console (append_store t w) = console w"
  by (simp_all add: append_store_def)

lemma store_text_append [simp]: "store_text (append_store t w) = store_text w @ t"
  by (simp add: store_text_def)

lemma echo_append_store [simp]: "echo (append_store t w) = echo w"
  by (simp add: echo_def fun_eq_iff)

subsection \<open>The accepted names\<close>

lemma RegExp_default_extensions:
  "RegExp (imageExtensions default_config) =
     Inr (map (\<lambda>n. map (\<lambda>c. (Chr c, Once)) n) [''jpg'', ''jpeg'', ''png''])"
  by (simp add: default_config_def RegExp_def backslash_def is_syntax_char_def syntax_chars_def
        cons_token_def)

text \<open>With the configuration of the source, \<open>validate\<close> accepts a path exactly when
  \<^verbatim>\<open>jpg\<close>, \<^verbatim>\<open>jpeg\<close> or \<^verbatim>\<open>png\<close> occurs anywhere in it.\<close>

lemma validate_default:
  "validate default_config p =
     Inr (sublist ''jpg'' p \<or> sublist ''jpeg'' p \<or> sublist ''png'' p)"
  by (simp add: validate_def checkFileExtension_def RegExp_default_extensions test_literals
           del: list.map)

subsection \<open>One file in flag\<close>

lemma store_fresh:
  assumes "\<not> sublist (base64 file) dat" and "store_writable w"
  shows "store file dat w =
           Return True (log (''File flagged: '' @ filePath file) 0 None
                          (append_store (base64 file @ nl) w))"
  using assms by (simp add: store_def existsInData_sublist)

lemma flag_file_fresh:
  assumes "\<not> sublist (base64 file) dat" and "store_writable w"
  shows "flag_file dat file st w =
           Return (st\<lparr> tally := tally st + 1 \<rparr>)
             (log (''File flagged: '' @ filePath file) 0 None
                (append_store (base64 file @ nl) w))"
  using assms by (simp add: flag_file_def existsInData_sublist store_fresh)

lemma flag_file_known:
  assumes "sublist (base64 file) dat"
  shows "flag_file dat file st w =
           Return st (log (''File already exists in data store: '' @ filePath file) 0 None w)"
  using assms by (simp add: flag_file_def existsInData_sublist)

text \<open>The step of \<open>flag\<close> for one image whose base64 string is not in the loaded text:
  the tally grows by 1 and the store by one line, in which the image is then found.\<close>

lemma flag_file_new_image:
  assumes "\<not> sublist (base64 file) dat" and "store_writable w"
  shows "\<exists>w'. flag_file dat file st w = Return (st\<lparr> tally := tally st + 1 \<rparr>) w' \<and>
              store_text w' = store_text w @ base64 file @ nl \<and>
              existsInData file (store_text w') = Inr True"
  using assms by (simp add: flag_file_fresh existsInData_sublist)

subsection \<open>Two runs of flag on one file\<close>

lemma new_ImageFile_file:
  assumes "nodes w p = Some (File (Some bytes))"
  shows "new_ImageFile default_config w p =
           Inr \<lparr> filePath = p, base64 = toString_base64 bytes,
                 chunks = (case dot_runs 120 (toString_base64 bytes) of
                             [] \<Rightarrow> None | r # rs \<Rightarrow> Some (r # rs)) \<rparr>"
  using assms
  by (simp add: new_ImageFile_def ImageFile_of_bytes_def match_chunks_def default_config_def
        Let_def split: list.splits)

lemma preload_single:
  assumes "nodes w p = Some (File (Some bytes))"
    and "validate default_config p = Inr True"
    and "store_db w = Some text" and "store_readable w"
  shows "preload default_config (p # rest) w =
           Return \<lparr> files = [\<lparr> filePath = p, base64 = toString_base64 bytes,
                                 chunks = (case dot_runs 120 (toString_base64 bytes) of
                                             [] \<Rightarrow> None | r # rs \<Rightarrow> Some (r # rs)) \<rparr>],
                    stats = \<lparr> tally = 0, total = 1 \<rparr>, data = text \<rparr> w"
  using assms by (simp add: preload_def new_ImageFile_file)

text \<open>
  Claim C4.  Flagging the same image in two successive runs of the command appends one
  entry only.  When the first run has stored the image (the file is a readable file with an
  accepted name, its base64 string was not in the store, the store can be read and
  written), the second run prints that the file already exists, leaves \<^verbatim>\<open>store.db\<close> as
  the first run left it, and reports 0 of 1 files added.
\<close>

theorem flag_twice_appends_once:
  assumes isfile: "nodes w p = Some (File (Some bytes))"
    and ext: "validate default_config p = Inr True"
    and rw: "store_readable w" "store_writable w"
    and fresh: "\<not> sublist (toString_base64 bytes) (store_text w)"
    and argv: "argv = node # script # ''flag'' # p # rest" "''--help'' \<notin> set argv"
    and out1: "out1 = main default_config engine argv w"
    and out2: "out2 = main default_config engine argv (world_after out1)"
  shows "store_db (world_after out1) = Some (store_text w @ toString_base64 bytes @ nl) \<and>
         store_db (world_after out2) = store_db (world_after out1) \<and>
         console (world_after out2) =
           console (world_after out1)
           @ echo w (''INFO File already exists in data store: '' @ p)
           @ echo w ''INFO Flag complete. Added 0/1 file(s).''
           @ echo w ''INFO Exiting...'' \<and>
         status out2 = 1"
proof -
  define w1 where "w1 = (if store_db w = None then w\<lparr> store_db := Some [] \<rparr> else w)"
  define img where "img = \<lparr> filePath = p, base64 = toString_base64 bytes,
     chunks = (case dot_runs 120 (toString_base64 bytes) of
                 [] \<Rightarrow> None | r # rs \<Rightarrow> Some (r # rs)) \<rparr>"
  have w1: "nodes w1 = nodes w" "store_db w1 = Some (store_text w)" "store_readable w1"
    "store_writable w1" "store_text w1 = store_text w" "echo w1 = echo w"
    "console w1 = console w"
    using rw by (auto simp: w1_def store_text_def echo_def fun_eq_iff split: option.splits)
  have pre1: "preload default_config (p # rest) w1 =
      Return \<lparr> files = [img], stats = \<lparr> tally = 0, total = 1 \<rparr>, data = store_text w \<rparr> w1"
    unfolding img_def using isfile ext w1 by (intro preload_single) simp_all
  have main1: "main default_config engine argv w =
      (case flag default_config (p # rest) w1 of
         Return u w2 \<Rightarrow> \<lparr> status = 0, ended_by = End_of_script, world_after = w2 \<rparr>
       | Throw e w2 \<Rightarrow> exit ''Command not found: flag'' 2 (Some e) w2
       | Exit out \<Rightarrow> out)"
    using argv rw by (simp add: main_def dispatch_def w1_def Let_def split: result.splits)
  have flag1: "flag default_config (p # rest) w1 =
      Exit (exit ''Flag complete. Added 1/1 file(s).'' 0 None
              (log (''File flagged: '' @ p) 0 None
                 (append_store (toString_base64 bytes @ nl) w1)))"
    using fresh w1 by (simp add: flag_def pre1 flag_file_fresh img_def)
  have o1: "out1 = exit ''Flag complete. Added 1/1 file(s).'' 0 None
              (log (''File flagged: '' @ p) 0 None
                 (append_store (toString_base64 bytes @ nl) w1))"
    by (simp add: out1 main1 flag1)
  define v where "v = world_after out1"
  have v: "nodes v = nodes w" "store_db v = Some (store_text w @ toString_base64 bytes @ nl)"
    "store_readable v" "store_writable v" "echo v = echo w"
    using w1 by (simp_all add: v_def o1)
  have pre2: "preload default_config (p # rest) v =
      Return \<lparr> files = [img], stats = \<lparr> tally = 0, total = 1 \<rparr>,
               data = store_text w @ toString_base64 bytes @ nl \<rparr> v"
    unfolding img_def using isfile ext v by (intro preload_single) simp_all
  have main2: "main default_config engine argv v =
      (case flag default_config (p # rest) v of
         Return u w2 \<Rightarrow> \<lparr> status = 0, ended_by = End_of_script, world_after = w2 \<rparr>
       | Throw e w2 \<Rightarrow> exit ''Command not found: flag'' 2 (Some e) w2
       | Exit out \<Rightarrow> out)"
    using argv v by (simp add: main_def dispatch_def Let_def split: result.splits)
  have flag2: "flag default_config (p # rest) v =
      Exit (exit ''Flag complete. Added 0/1 file(s).'' 0 None
              (log (''File already exists in data store: '' @ p) 0 None v))"
    by (simp add: flag_def pre2 flag_file_known img_def)
  have o2: "out2 = exit ''Flag complete. Added 0/1 file(s).'' 0 None
              (log (''File already exists in data store: '' @ p) 0 None v)"
    by (simp add: out2 main2 flag2 v_def [symmetric])
  show ?thesis
    using v by (simp add: o2 console_log v_def [symmetric])
qed

theorem flag_twice_appends_once_witness:
  "store_db (world_after (main default_config undeclared
      [''node'', ''index.js'', ''flag'', ''imgs/a.png''] example_world)) = Some (''AA=='' @ nl) \<and>
   store_db (world_after (main default_config undeclared
      [''node'', ''index.js'', ''flag'', ''imgs/a.png'']
      (world_after (main default_config undeclared
         [''node'', ''index.js'', ''flag'', ''imgs/a.png''] example_world))))
     = Some (''AA=='' @ nl) \<and>
   console (world_after (main default_config undeclared
      [''node'', ''index.js'', ''flag'', ''imgs/a.png'']
      (world_after (main default_config undeclared
         [''node'', ''index.js'', ''flag'', ''imgs/a.png''] example_world))))
     = console (world_after (main default_config undeclared
         [''node'', ''index.js'', ''flag'', ''imgs/a.png''] example_world))
       @ [Info ''INFO File already exists in data store: imgs/a.png'',
          Info ''INFO Flag complete. Added 0/1 file(s).'',
          Info ''INFO Exiting...'']"
proof -
  have h1: "nodes example_world ''imgs/a.png'' = Some (File (Some [0]))"
    by (simp add: example_world_def)
  have h2: "validate default_config ''imgs/a.png'' = Inr True"
    by (simp add: validate_default sublist_code prefix_code)
  have h3: "store_readable example_world" "store_writable example_world"
    by (simp_all add: example_world_def)
  have t: "store_text example_world = []"
    by (simp add: example_world_def store_text_def)
  have b: "toString_base64 [0] = ''AA==''"
    by (simp add: sextet_def base64_alphabet_def)
  have h4: "\<not> sublist (toString_base64 [0]) (store_text example_world)"
    by (simp add: t b)
  have h5: "''--help'' \<notin> set [''node'', ''index.js'', ''flag'', ''imgs/a.png'']"
    by simp
  have e: "echo example_world = (\<lambda>m. [Info m])"
    by (simp add: echo_def example_world_def fun_eq_iff)
  show ?thesis
    using flag_twice_appends_once [OF h1 h2 h3 h4 refl h5 refl refl, of undeclared]
    by (simp add: t b e sextet_def base64_alphabet_def)
qed

subsection \<open>What a command leaves of the world\<close>

lemma preload_cases:
  "(\<exists>e. preload cfg args w = Throw e w) \<or>
   preload cfg args w = Exit (exit ''No files with accepted extensions found'' 1 None w) \<or>
   (\<exists>pre. preload cfg args w = Return pre w)"
  by (simp add: preload_def split: list.splits option.splits sum.splits)

lemma preload_store_db: "store_db (result_world (preload cfg args w)) = store_db w"
  using preload_cases [of cfg args w] by auto


lemma forEach_store_db:
  assumes "\<And>x st w. store_db (result_world (f x st w)) = store_db w"
  shows "store_db (result_world (forEach f xs st w)) = store_db w"
proof (induction xs arbitrary: st w)
  case Nil
  show ?case by simp
next
  case (Cons x xs)
  show ?case
  proof (cases "f x st w")
    case (Return st' w')
    with assms [of x st w] have "store_db w' = store_db w" by simp
    with Return Cons [of st' w'] show ?thesis by simp
  next
    case (Throw e w')
    with assms [of x st w] show ?thesis by simp
  next
    case (Exit out)
    with assms [of x st w] show ?thesis by simp
  qed
qed


lemma check_file_store_db: "store_db (result_world (check_file args dat file st w)) = store_db w"
  by (simp add: check_file_def split: sum.splits)


lemma check_store_db: "store_db (result_world (check cfg args w)) = store_db w"
proof (cases "preload cfg args w")
  case (Return pre w1)
  with preload_store_db [of cfg args w] have w1: "store_db w1 = store_db w" by simp
  have "store_db (result_world (forEach (check_file args (data pre)) (files pre) (stats pre) w1))
          = store_db w1"
    by (rule forEach_store_db) (rule check_file_store_db)
  with Return w1 show ?thesis
    by (cases "forEach (check_file args (data pre)) (files pre) (stats pre) w1")
       (simp_all add: check_def)
next
  case (Throw e w')
  with preload_store_db [of cfg args w] show ?thesis by (simp add: check_def)
next
  case (Exit out)
  with preload_store_db [of cfg args w] show ?thesis by (simp add: check_def)
qed







text \<open>
  Claim C7.  A check command, with or without \<^verbatim>\<open>--partial\<close>, over any input and any
  store content, does not change the store: the store text after the run is the store text
  before it, and a \<^verbatim>\<open>store.db\<close> that existed is the same file content afterwards (a
  missing one has been created empty, or not at all).  The function \<open>check\<close> itself leaves
  \<^verbatim>\<open>store.db\<close> as it is.
\<close>

theorem check_never_mutates_store:
  assumes "2 < length argv" and "argv ! 2 = ''check''"
  shows "store_text (world_after (main cfg engine argv w)) = store_text w \<and>
         (store_db w \<noteq> None \<longrightarrow> store_db (world_after (main cfg engine argv w)) = store_db w) \<and>
         store_db (result_world (check cfg (drop 3 argv) w)) = store_db w"
proof -
  define w1 where "w1 = (if store_db w = None then w\<lparr> store_db := Some [] \<rparr> else w)"
  have w1: "store_text w1 = store_text w" "store_db w \<noteq> None \<longrightarrow> store_db w1 = store_db w"
    by (auto simp: w1_def store_text_def)
  have c: "store_db (result_world (check cfg (drop 3 argv) w1)) = store_db w1"
    by (rule check_store_db)
  have "store_db (world_after (main cfg engine argv w)) = store_db w
        \<or> store_db (world_after (main cfg engine argv w)) = store_db w1"
    using assms c
    by (cases "check cfg (drop 3 argv) w1")
       (auto simp: main_def dispatch_def Let_def help_command_def w1_def)
  then have "store_text (world_after (main cfg engine argv w)) = store_text w \<and>
         (store_db w \<noteq> None \<longrightarrow> store_db (world_after (main cfg engine argv w)) = store_db w)"
    using w1 by (auto simp: store_text_def)
  then show ?thesis
    by (simp add: check_store_db)
qed

theorem check_never_mutates_store_witness:
  "2 < length [''node'', ''index.js'', ''check'', ''imgs'', ''--partial''] \<and>
   [''node'', ''index.js'', ''check'', ''imgs'', ''--partial''] ! 2 = ''check'' \<and>
   store_db stocked_world = Some (''AA=='' @ nl) \<and>
   store_db (world_after (main default_config undeclared
      [''node'', ''index.js'', ''check'', ''imgs'', ''--partial''] stocked_world))
     = Some (''AA=='' @ nl)"
proof -
  have h1: "2 < length [''node'', ''index.js'', ''check'', ''imgs'', ''--partial'']"
    by simp
  have h2: "[''node'', ''index.js'', ''check'', ''imgs'', ''--partial''] ! 2 = ''check''"
    by simp
  have s: "store_db stocked_world = Some (''AA=='' @ nl)"
    by (simp add: stocked_world_def)
  show ?thesis
    using check_never_mutates_store [OF h1 h2, of default_config undeclared stocked_world] s
    by simp
qed

subsection \<open>How the process ends\<close>

lemma help_command_simps [simp]:
  "status (help_command argv w) = 1"
  "ended_by (help_command argv w) = Help_exit"
  by (simp_all add: help_command_def Let_def)







text \<open>A command text that names another function of the script is called as well:
  \<^verbatim>\<open>node index.js validate x\<close> reaches the end of the script, and the status is 0.\<close>

lemma validate_as_command_ends_with_status_0:
  "status (main default_config undeclared [''node'', ''index.js'', ''validate'', ''x'']
             example_world) = 0 \<and>
   ended_by (main default_config undeclared [''node'', ''index.js'', ''validate'', ''x'']
             example_world) = End_of_script"
  by code_simp

subsection \<open>Concrete runs\<close>

text \<open>
  Claim C3 fails on the code.  Flagging the directory \<^verbatim>\<open>imgs\<close>, whose two image files
  have the same content, into a store without lines appends the same line twice: the text
  read from \<^verbatim>\<open>store.db\<close> before the loop is not read again after an append.
\<close>

theorem flag_batch_appends_duplicate_lines:
  "no_duplicate_lines (store_text example_world) \<and>
   store_db (world_after (main default_config undeclared
      [''node'', ''index.js'', ''flag'', ''imgs''] example_world))
     = Some (''AA=='' @ nl @ ''AA=='' @ nl) \<and>
   \<not> no_duplicate_lines (store_text (world_after (main default_config undeclared
      [''node'', ''index.js'', ''flag'', ''imgs''] example_world)))"
  by code_simp

text \<open>
  Claim C6 fails on the code for the empty string.  The image of a file without bytes has
  the base64 string \<^verbatim>\<open>""\<close> and \<^verbatim>\<open>null\<close> for its chunks, not an empty sequence, and
  \<open>chunksExistInData\<close> on it throws a \<open>TypeError\<close>.
\<close>

theorem empty_image_chunks_null:
  "ImageFile_of_bytes default_config ''e.png'' [] =
     Inr \<lparr> filePath = ''e.png'', base64 = [], chunks = None \<rparr> \<and>
   chunksExistInData \<lparr> filePath = ''e.png'', base64 = [], chunks = None \<rparr> dat = Inl TypeError"
  by (simp add: ImageFile_of_bytes_def match_chunks_def default_config_def
        chunksExistInData_def chunks_scan_def)

text \<open>
  Claim C8 fails on the code.  The pattern \<^verbatim>\<open>jpg|jpeg|png\<close> is searched anywhere in the
  path: a text file whose name contains \<^verbatim>\<open>png\<close>, and any file in a directory named
  \<^verbatim>\<open>jpgs\<close>, pass \<open>validate\<close>, and \<^verbatim>\<open>flag png_notes.txt\<close> stores the text file.
\<close>

theorem validate_accepts_names_without_the_suffix:
  "validate default_config ''png_notes.txt'' = Inr True \<and>
   validate default_config ''jpgs/readme.md'' = Inr True \<and>
   store_db (world_after (main default_config undeclared
      [''node'', ''index.js'', ''flag'', ''png_notes.txt''] example_world))
     = Some (''AQID'' @ nl)"
  by code_simp

text \<open>
  Claim C10 fails on the code in its last part.  For the empty image \<^verbatim>\<open>e.png\<close>,
  \<^verbatim>\<open>check e.png --partial\<close> does not report the file as found: the scan of the chunks
  throws, and the run ends with \<^verbatim>\<open>Command not found: check\<close>.  Without
  \<^verbatim>\<open>--partial\<close> the file is reported as found.
\<close>

theorem check_partial_of_empty_image_throws:
  "console (world_after (main default_config undeclared
      [''node'', ''index.js'', ''check'', ''e.png'', ''--partial''] example_world))
     = [Info (''CRITICAL Command not found: check'' @ nl @ ''TypeError''),
        Info ''INFO Exiting...''] \<and>
   console (world_after (main default_config undeclared
      [''node'', ''index.js'', ''check'', ''e.png''] example_world))
     = [Info ''INFO File found in data store: e.png'',
        Info ''INFO Check complete. Found 1/1 file(s) matching in data store.'',
        Info ''INFO Exiting...'']"
  by code_simp

subsection \<open>The chunks of a non-empty image\<close>

lemma sextet_no_line_terminator: "\<not> is_line_terminator (sextet i)"
proof -
  have "i mod 64 < length base64_alphabet"
    by (simp add: base64_alphabet_def)
  then have "sextet i \<in> set base64_alphabet"
    unfolding sextet_def by (rule nth_mem)
  then show ?thesis
    by (auto simp: base64_alphabet_def is_line_terminator_def)
qed

lemma base64_no_line_terminator:
  "c \<in> set (toString_base64 bs) \<Longrightarrow> \<not> is_line_terminator c"
proof (induction bs rule: toString_base64.induct)
  case 1
  then show ?case by simp
next
  case (2 a)
  then show ?case
    using sextet_no_line_terminator by (auto simp: is_line_terminator_def)
next
  case (3 a b)
  then show ?case
    using sextet_no_line_terminator by (auto simp: is_line_terminator_def)
next
  case (4 a b c' bs)
  then show ?case
    using sextet_no_line_terminator by auto
qed

lemma toString_base64_empty: "toString_base64 bs = [] \<longleftrightarrow> bs = []"
  by (cases bs rule: toString_base64.cases) simp_all

lemma dot_runs_step:
  assumes "0 < n" and "s \<noteq> []" and "\<forall>c\<in>set s. \<not> is_line_terminator c"
  shows "dot_runs n s = take n s # dot_runs n (drop n s)"
proof -
  obtain c cs where s: "s = c # cs"
    using assms(2) by (cases s) auto
  have "\<forall>d\<in>set (take n s). \<not> is_line_terminator d"
    using assms(3) by (meson in_set_takeD)
  then have run: "takeWhile (\<lambda>d. \<not> is_line_terminator d) (take n s) = take n s"
    by (simp add: takeWhile_eq_all_conv)
  have ne: "take n s \<noteq> []"
    using assms(1,2) by simp
  have dr: "drop (length (take n s)) s = drop n s"
    by (cases "n \<le> length s") (simp_all add: min_def)
  have "dot_runs n s =
          (let run = takeWhile (\<lambda>d. \<not> is_line_terminator d) (take n s)
           in if run = [] then dot_runs n cs
              else run # dot_runs n (drop (length run) s))"
    unfolding s by (rule dot_runs.simps(2))
  also have "\<dots> = take n s # dot_runs n (drop (length (take n s)) s)"
    unfolding run Let_def using ne by (simp only: if_False)
  also have "\<dots> = take n s # dot_runs n (drop n s)"
    by (simp only: dr)
  finally show ?thesis .
qed

text \<open>For a string of \<open>L > 0\<close> characters without line terminators and \<open>n > 0\<close>, the
  chunks are \<open>\<lceil>L / n\<rceil>\<close> many, written \<open>(L + n - 1) div n\<close>.\<close>

lemma dot_runs_length:
  assumes "0 < n" and "\<forall>c\<in>set s. \<not> is_line_terminator c"
  shows "length (dot_runs n s) = (length s + n - 1) div n"
  using assms(2)
proof (induction "length s" arbitrary: s rule: less_induct)
  case less
  show ?case
  proof (cases "s = []")
    case True
    then show ?thesis using assms(1) by simp
  next
    case False
    have step: "dot_runs n s = take n s # dot_runs n (drop n s)"
      using assms(1) False less.prems by (rule dot_runs_step)
    have shorter: "length (drop n s) < length s"
      using False assms(1) by simp
    have rest: "\<forall>c\<in>set (drop n s). \<not> is_line_terminator c"
      using less.prems by (meson in_set_dropD)
    have ih: "length (dot_runs n (drop n s)) = (length (drop n s) + n - 1) div n"
      using shorter rest by (rule less.hyps)
    have ceil: "(length s + n - 1) div n = Suc ((length s - 1) div n)"
    proof -
      have e: "length s + n - 1 = (length s - 1) + n"
        using False by (cases s) simp_all
      have "((length s - 1) + n) div n = Suc ((length s - 1) div n)"
        using assms(1) div_add_self2 [of n "length s - 1"] by simp
      then show ?thesis
        by (simp only: e)
    qed
    show ?thesis
    proof (cases "n \<le> length s")
      case True
      have "length (drop n s) + n - 1 = length s - 1"
        using True assms(1) by simp
      then have "length (dot_runs n (drop n s)) = (length s - 1) div n"
        by (simp only: ih)
      then show ?thesis
        by (simp only: step ceil length_Cons)
    next
      case False
      then have "drop n s = []" and "(length s - 1) div n = 0"
        by simp_all
      then show ?thesis
        by (simp only: step ceil length_Cons dot_runs.simps list.size)
    qed
  qed
qed

lemma dot_runs_concat:
  assumes "0 < n" and "\<forall>c\<in>set s. \<not> is_line_terminator c"
  shows "concat (dot_runs n s) = s"
  using assms(2)
proof (induction "length s" arbitrary: s rule: less_induct)
  case less
  show ?case
  proof (cases "s = []")
    case True
    then show ?thesis by simp
  next
    case False
    have step: "dot_runs n s = take n s # dot_runs n (drop n s)"
      using assms(1) False less.prems by (rule dot_runs_step)
    have shorter: "length (drop n s) < length s"
      using False assms(1) by simp
    have rest: "\<forall>c\<in>set (drop n s). \<not> is_line_terminator c"
      using less.prems by (meson in_set_dropD)
    have "concat (dot_runs n (drop n s)) = drop n s"
      using shorter rest by (rule less.hyps)
    then show ?thesis
      by (simp add: step)
  qed
qed

lemma dot_runs_Nil_iff:
  assumes "0 < n" and "\<forall>c\<in>set s. \<not> is_line_terminator c"
  shows "dot_runs n s = [] \<longleftrightarrow> s = []"
proof (cases "s = []")
  case True
  then show ?thesis by simp
next
  case False
  then show ?thesis
    using dot_runs_step [OF assms(1) False assms(2)] by simp
qed

text \<open>Every chunk but the last has \<open>n\<close> characters; the last has the
  \<open>L - n * (count - 1)\<close> remaining ones.\<close>

lemma dot_runs_nth_length:
  assumes "0 < n" and "\<forall>c\<in>set s. \<not> is_line_terminator c"
    and "i < length (dot_runs n s)"
  shows "length (dot_runs n s ! i) =
           (if Suc i < length (dot_runs n s) then n
            else length s - n * (length (dot_runs n s) - 1))"
  using assms(2,3)
proof (induction "length s" arbitrary: s i rule: less_induct)
  case less
  have ne: "s \<noteq> []"
    using less.prems(2) by auto
  have step: "dot_runs n s = take n s # dot_runs n (drop n s)"
    using assms(1) ne less.prems(1) by (rule dot_runs_step)
  have rest: "\<forall>c\<in>set (drop n s). \<not> is_line_terminator c"
    using less.prems(1) by (meson in_set_dropD)
  have shorter: "length (drop n s) < length s"
    using ne assms(1) by simp
  have nil: "dot_runs n (drop n s) = [] \<longleftrightarrow> length s \<le> n"
    using dot_runs_Nil_iff [OF assms(1) rest] by simp
  show ?case
  proof (cases i)
    case 0
    show ?thesis
    proof (cases "length s \<le> n")
      case True
      with nil 0 show ?thesis by (simp add: step)
    next
      case False
      with nil have "dot_runs n (drop n s) \<noteq> []" by simp
      then have "0 < length (dot_runs n (drop n s))" by simp
      with False 0 show ?thesis by (simp add: step min_def)
    qed
  next
    case (Suc j)
    then have j: "j < length (dot_runs n (drop n s))"
      using less.prems(2) by (simp add: step)
    have ih: "length (dot_runs n (drop n s) ! j) =
           (if Suc j < length (dot_runs n (drop n s)) then n
            else length (drop n s) - n * (length (dot_runs n (drop n s)) - 1))"
      using shorter rest j by (rule less.hyps)
    obtain k where k: "length (dot_runs n (drop n s)) = Suc k"
      using j by (cases "length (dot_runs n (drop n s))") auto
    show ?thesis
      using ih by (simp add: step Suc k diff_diff_left [symmetric] del: diff_diff_left)
  qed
qed

text \<open>The image of a non-empty file, with a chunk length \<open>n > 0\<close>: the chunks are
  \<open>(L + n - 1) div n\<close> many and make up the base64 string.\<close>

lemma chunks_of_nonempty_image:
  assumes "0 < partialChunks cfg" and "bytes \<noteq> []"
  shows "\<exists>cs. ImageFile_of_bytes cfg p bytes =
                 Inr \<lparr> filePath = p, base64 = toString_base64 bytes, chunks = Some cs \<rparr> \<and>
              cs = dot_runs (partialChunks cfg) (toString_base64 bytes) \<and>
              length cs = (length (toString_base64 bytes) + partialChunks cfg - 1)
                            div partialChunks cfg \<and>
              concat cs = toString_base64 bytes"
proof -
  have nolt: "\<forall>c\<in>set (toString_base64 bytes). \<not> is_line_terminator c"
    using base64_no_line_terminator by blast
  have "toString_base64 bytes \<noteq> []"
    using assms(2) by (simp add: toString_base64_empty)
  then have "dot_runs (partialChunks cfg) (toString_base64 bytes) \<noteq> []"
    using dot_runs_Nil_iff [OF assms(1) nolt] by simp
  then show ?thesis
    using assms(1) dot_runs_length [OF assms(1) nolt] dot_runs_concat [OF assms(1) nolt]
    by (auto simp: ImageFile_of_bytes_def match_chunks_def Let_def split: list.splits)
qed

subsection \<open>The empty image\<close>

lemma existsInData_empty: "base64 file = [] \<Longrightarrow> existsInData file dat = Inr True"
  by (simp add: existsInData_sublist)

lemma flag_file_empty:
  "base64 file = [] \<Longrightarrow>
   flag_file dat file st w =
     Return st (log (''File already exists in data store: '' @ filePath file) 0 None w)"
  by (simp add: flag_file_known)

lemma check_file_empty:
  assumes "base64 file = []" and "''--partial'' \<notin> set args"
  shows "check_file args dat file st w =
           Return (st\<lparr> tally := tally st + 1 \<rparr>)
             (log (''File found in data store: '' @ filePath file) 0 None w)"
  using assms by (simp add: check_file_def existsInData_sublist)

lemma check_file_null_chunks:
  assumes "chunks file = None" and "''--partial'' \<in> set args"
  shows "check_file args dat file st w = Throw TypeError w"
  using assms by (simp add: check_file_def chunksExistInData_def chunks_scan_def)

subsection \<open>Names with an accepted suffix\<close>

lemma validate_suffix:
  assumes "suffix ''.jpg'' p \<or> suffix ''.jpeg'' p \<or> suffix ''.png'' p"
  shows "validate default_config p = Inr True"
proof -
  have dotted: "sublist x p" if "suffix (CHR ''.'' # x) p" for x
  proof -
    from that obtain ps where "p = ps @ CHR ''.'' # x"
      by (auto simp: suffix_def)
    then have "p = (ps @ ''.'') @ x @ []"
      by simp
    then show ?thesis
      unfolding sublist_def by blast
  qed
  have "sublist ''jpg'' p \<or> sublist ''jpeg'' p \<or> sublist ''png'' p"
    using assms dotted [of "''jpg''"] dotted [of "''jpeg''"] dotted [of "''png''"]
    by auto
  then show ?thesis
    by (simp add: validate_default)
qed

subsection \<open>A batch of files in flag\<close>

text \<open>With a writable store, the loop of \<open>flag\<close> appends one line for every file of the
  batch whose base64 string is not in the text loaded before the loop, in order, whether
  or not an earlier file of the batch has the same base64 string.\<close>

lemma forEach_flag_file:
  assumes "store_writable w"
  shows "\<exists>w'. forEach (flag_file dat) fs st w =
                 Return (st\<lparr> tally := tally st
                                 + length (filter (\<lambda>f. \<not> sublist (base64 f) dat) fs) \<rparr>) w' \<and>
              store_text w' =
                store_text w
                @ concat (map (\<lambda>f. base64 f @ nl) (filter (\<lambda>f. \<not> sublist (base64 f) dat) fs)) \<and>
              store_writable w'"
  using assms
proof (induction fs arbitrary: st w)
  case Nil
  then show ?case by simp
next
  case (Cons f fs)
  show ?case
  proof (cases "sublist (base64 f) dat")
    case True
    define w1 where "w1 = log (''File already exists in data store: '' @ filePath f) 0 None w"
    have "store_writable w1" using Cons.prems by (simp add: w1_def)
    from Cons.IH [OF this, of st] obtain w' where
      "forEach (flag_file dat) fs st w1 =
         Return (st\<lparr> tally := tally st
                         + length (filter (\<lambda>f. \<not> sublist (base64 f) dat) fs) \<rparr>) w'"
      "store_text w' = store_text w1
         @ concat (map (\<lambda>f. base64 f @ nl) (filter (\<lambda>f. \<not> sublist (base64 f) dat) fs))"
      "store_writable w'"
      by blast
    then show ?thesis
      using True by (simp add: flag_file_known w1_def)
  next
    case False
    define w1 where "w1 = log (''File flagged: '' @ filePath f) 0 None
                            (append_store (base64 f @ nl) w)"
    have "store_writable w1" using Cons.prems by (simp add: w1_def)
    from Cons.IH [OF this, of "st\<lparr> tally := tally st + 1 \<rparr>"] obtain w' where
      "forEach (flag_file dat) fs (st\<lparr> tally := tally st + 1 \<rparr>) w1 =
         Return (st\<lparr> tally := tally st + 1
                         + length (filter (\<lambda>f. \<not> sublist (base64 f) dat) fs) \<rparr>) w'"
      "store_text w' = store_text w1
         @ concat (map (\<lambda>f. base64 f @ nl) (filter (\<lambda>f. \<not> sublist (base64 f) dat) fs))"
      "store_writable w'"
      by auto
    then show ?thesis
      using False Cons.prems by (simp add: flag_file_fresh w1_def)
  qed
qed

subsection \<open>The files taken from a directory\<close>

lemma new_ImageFile_filePath: "new_ImageFile cfg w p = Inr f \<Longrightarrow> filePath f = p"
  by (auto simp: new_ImageFile_def ImageFile_of_bytes_def Let_def
           split: option.splits node.splits sum.splits)

text \<open>When the entries of a directory can all be loaded, the images are those of the
  entries whose path \<open>validate\<close> accepts, in the order of the directory.\<close>

lemma preload_items_paths:
  assumes "preload_items cfg w dir items fs = Inr gs"
  shows "map filePath gs =
           map filePath fs
           @ filter (\<lambda>p. validate cfg p = Inr True) (map (\<lambda>item. dir @ ''/'' @ item) items)"
  using assms
proof (induction items arbitrary: fs)
  case Nil
  then show ?case by simp
next
  case (Cons item items)
  show ?case
  proof (cases "validate cfg (dir @ ''/'' @ item)")
    case (Inl e)
    with Cons.prems show ?thesis by simp
  next
    case (Inr ok)
    show ?thesis
    proof (cases ok)
      case False
      with Inr Cons.prems have "preload_items cfg w dir items fs = Inr gs"
        by simp
      from Cons.IH [OF this] show ?thesis
        using Inr False by simp
    next
      case True
      show ?thesis
      proof (cases "new_ImageFile cfg w (dir @ ''/'' @ item)")
        case (Inl e)
        with Inr True Cons.prems show ?thesis by simp
      next
        case (Inr f)
        with \<open>validate cfg (dir @ ''/'' @ item) = Inr ok\<close> True Cons.prems
        have "preload_items cfg w dir items (fs @ [f]) = Inr gs"
          by simp
        from Cons.IH [OF this] show ?thesis
          using \<open>validate cfg (dir @ ''/'' @ item) = Inr ok\<close> True
            new_ImageFile_filePath [OF Inr]
          by simp
      qed
    qed
  qed
qed

subsection \<open>One run of flag\<close>

lemma preload_Return:
  assumes "preload cfg args w = Return pre w'"
  shows "w' = w \<and> store_db w = Some (data pre) \<and>
         stats pre = \<lparr> tally = 0, total = length (files pre) \<rparr> \<and> files pre \<noteq> []"
  using assms
  by (auto simp: preload_def split: list.splits option.splits sum.splits if_splits)

lemma sublist_concat_member:
  assumes "x \<in> set xs"
  shows "sublist (g x) (concat (map (\<lambda>y. g y @ t) xs))"
proof -
  from assms obtain ys zs where "xs = ys @ x # zs"
    by (meson split_list)
  then have "concat (map (\<lambda>y. g y @ t) xs) =
             concat (map (\<lambda>y. g y @ t) ys) @ g x @ (t @ concat (map (\<lambda>y. g y @ t) zs))"
    by simp
  then show ?thesis
    unfolding sublist_def by blast
qed

lemma sublist_append_right: "sublist x a \<Longrightarrow> sublist x (a @ b)"
  unfolding sublist_def by (metis append.assoc)

lemma sublist_append_left: "sublist x b \<Longrightarrow> sublist x (a @ b)"
  unfolding sublist_def by (metis append.assoc)

text \<open>
  Claim C5.  In a run of the command \<^verbatim>\<open>flag\<close> whose input has been loaded and whose
  store can be written, every image whose base64 string does not occur in the loaded store
  text adds exactly one line, its base64 string and a newline, to the end of the store, and
  exactly 1 to the tally that the run reports; what the store held before is still its
  beginning, and afterwards \<open>existsInData\<close> of every image of the run against the new
  store text is true.  In particular, for a single image that is not in the store the run
  reports 1 of 1 files added and the store text is the former text followed by the one
  line.
\<close>

theorem flag_appends_one_line_per_new_image:
  assumes argv: "argv = node # script # ''flag'' # args" "''--help'' \<notin> set argv"
    and writable: "store_writable w"
    and loaded: "preload cfg args (if store_db w = None then w\<lparr> store_db := Some [] \<rparr> else w)
                   = Return pre w1"
  shows "data pre = store_text w \<and>
         (\<exists>w2. main cfg engine argv w =
                  exit (''Flag complete. Added '' @
                        string_of_nat (length (filter (\<lambda>f. \<not> sublist (base64 f) (data pre))
                                                 (files pre))) @ ''/'' @
                        string_of_nat (length (files pre)) @ '' file(s).'') 0 None w2 \<and>
                store_text w2 =
                  store_text w @
                  concat (map (\<lambda>f. base64 f @ nl)
                            (filter (\<lambda>f. \<not> sublist (base64 f) (data pre)) (files pre)))) \<and>
         store_text (world_after (main cfg engine argv w)) =
           store_text w @
           concat (map (\<lambda>f. base64 f @ nl)
                     (filter (\<lambda>f. \<not> sublist (base64 f) (data pre)) (files pre))) \<and>
         (\<forall>f\<in>set (files pre).
            existsInData f (store_text (world_after (main cfg engine argv w))) = Inr True) \<and>
         (\<forall>X. files pre = [X] \<and> \<not> sublist (base64 X) (store_text w) \<longrightarrow>
            (\<exists>w2. main cfg engine argv w =
                     exit ''Flag complete. Added 1/1 file(s).'' 0 None w2 \<and>
                   store_text w2 = store_text w @ base64 X @ nl) \<and>
            store_text (world_after (main cfg engine argv w)) = store_text w @ base64 X @ nl \<and>
            existsInData X (store_text (world_after (main cfg engine argv w))) = Inr True)"
proof -
  define w0 where "w0 = (if store_db w = None then w\<lparr> store_db := Some [] \<rparr> else w)"
  define new where "new = filter (\<lambda>f. \<not> sublist (base64 f) (data pre)) (files pre)"
  define msg where "msg = ''Flag complete. Added '' @ string_of_nat (length new) @ ''/'' @
                          string_of_nat (length (files pre)) @ '' file(s).''"
  have w0: "store_text w0 = store_text w" "store_writable w0"
    using writable by (auto simp: w0_def store_text_def)
  from loaded have pre: "w1 = w0" "store_db w0 = Some (data pre)"
    "stats pre = \<lparr> tally = 0, total = length (files pre) \<rparr>"
    using preload_Return [of cfg args w0 pre w1] by (simp_all add: w0_def)
  have dat: "data pre = store_text w"
    using pre(2) w0(1) by (simp add: store_text_def)
  from forEach_flag_file [OF w0(2), of "data pre" "files pre" "stats pre"]
  obtain w' where loop:
    "forEach (flag_file (data pre)) (files pre) (stats pre) w0 =
       Return (stats pre\<lparr> tally := tally (stats pre) + length new \<rparr>) w'"
    "store_text w' = store_text w0 @ concat (map (\<lambda>f. base64 f @ nl) new)"
    unfolding new_def by blast
  have fl: "flag cfg args w0 = Exit (exit msg 0 None w')"
    using loaded loop(1) pre(1,3) by (simp add: flag_def w0_def [symmetric] msg_def)
  have m: "main cfg engine argv w = exit msg 0 None w'"
    using argv writable fl
    by (simp add: main_def dispatch_def Let_def w0_def [symmetric])
  have st: "store_text w' = store_text w @ concat (map (\<lambda>f. base64 f @ nl) new)"
    using loop(2) w0(1) by simp
  have after: "store_text (world_after (main cfg engine argv w)) =
                 store_text w @ concat (map (\<lambda>f. base64 f @ nl) new)"
    by (simp add: m st)
  have ex: "existsInData f (store_text (world_after (main cfg engine argv w))) = Inr True"
    if "f \<in> set (files pre)" for f
  proof (cases "sublist (base64 f) (data pre)")
    case True
    then have "sublist (base64 f) (store_text w @ concat (map (\<lambda>f. base64 f @ nl) new))"
      unfolding dat by (rule sublist_append_right)
    then show ?thesis by (simp add: after existsInData_sublist)
  next
    case False
    with that have "f \<in> set new" by (simp add: new_def)
    then have "sublist (base64 f) (concat (map (\<lambda>f. base64 f @ nl) new))"
      by (rule sublist_concat_member)
    then have "sublist (base64 f) (store_text w @ concat (map (\<lambda>f. base64 f @ nl) new))"
      by (rule sublist_append_left)
    then show ?thesis by (simp add: after existsInData_sublist)
  qed
  have single: "(\<exists>w2. main cfg engine argv w =
                     exit ''Flag complete. Added 1/1 file(s).'' 0 None w2 \<and>
                   store_text w2 = store_text w @ base64 X @ nl) \<and>
            store_text (world_after (main cfg engine argv w)) = store_text w @ base64 X @ nl \<and>
            existsInData X (store_text (world_after (main cfg engine argv w))) = Inr True"
    if "files pre = [X]" "\<not> sublist (base64 X) (store_text w)" for X
  proof -
    have n: "new = [X]" using that dat by (simp add: new_def)
    have "msg = ''Flag complete. Added 1/1 file(s).''"
      by (simp add: msg_def n that(1))
    then show ?thesis
      using m st after ex [of X] that(1) by (auto simp: n)
  qed
  show ?thesis
    using dat m st after ex single unfolding msg_def new_def by blast
qed

theorem flag_appends_one_line_per_new_image_witness:
  "store_writable example_world \<and>
   (\<exists>w2. main default_config undeclared [''node'', ''index.js'', ''flag'', ''imgs/a.png'']
            example_world = exit ''Flag complete. Added 1/1 file(s).'' 0 None w2 \<and>
          store_text w2 = ''AA=='' @ nl) \<and>
   store_text (world_after (main default_config undeclared
      [''node'', ''index.js'', ''flag'', ''imgs/a.png''] example_world)) = ''AA=='' @ nl"
proof -
  define w0 where "w0 = (if store_db example_world = None
                         then example_world\<lparr> store_db := Some [] \<rparr> else example_world)"
  define X where "X = \<lparr> filePath = ''imgs/a.png'', base64 = toString_base64 [0],
     chunks = (case dot_runs 120 (toString_base64 [0]) of
                 [] \<Rightarrow> None | r # rs \<Rightarrow> Some (r # rs)) \<rparr>"
  have h1: "''--help'' \<notin> set [''node'', ''index.js'', ''flag'', ''imgs/a.png'']"
    by simp
  have h2: "store_writable example_world"
    by (simp add: example_world_def)
  have w0: "nodes w0 ''imgs/a.png'' = Some (File (Some [0]))" "store_db w0 = Some []"
    "store_readable w0"
    by (simp_all add: w0_def example_world_def)
  have v: "validate default_config ''imgs/a.png'' = Inr True"
    by (simp add: validate_default sublist_code prefix_code)
  have h3: "preload default_config [''imgs/a.png''] w0 =
              Return \<lparr> files = [X], stats = \<lparr> tally = 0, total = 1 \<rparr>, data = [] \<rparr> w0"
    unfolding X_def using w0(1) v w0(2,3) by (rule preload_single)
  have t: "store_text example_world = []"
    by (simp add: example_world_def store_text_def)
  have b: "base64 X = ''AA==''"
    by (simp add: X_def sextet_def base64_alphabet_def)
  show ?thesis
    using flag_appends_one_line_per_new_image
            [where argv = "[''node'', ''index.js'', ''flag'', ''imgs/a.png'']"
               and node = "''node''" and script = "''index.js''" and args = "[''imgs/a.png'']"
               and w = example_world and cfg = default_config and engine = undeclared
               and pre = "\<lparr> files = [X], stats = \<lparr> tally = 0, total = 1 \<rparr>, data = [] \<rparr>",
             OF refl h1 h2 h3 [unfolded w0_def]] h2
    by (simp add: t b)
qed

subsection \<open>Runs that do not return end with status 1\<close>







end
